theory Spec2Isabelle
  imports Main "HOL-Library.Log_Nat" "HOL-Library.Multiset"
begin

section \<open>Data model\<close>

text \<open>
  A JavaScript string is a sequence of UTF-16 code units. Literals of the source that are
  plain ASCII are written through \<open>utf16\<close>; its Chinese literals are written as their
  code units.
\<close>

type_synonym jstring = "nat list"

definition utf16 :: "string \<Rightarrow> jstring" where
  "utf16 s = map of_char s"

text \<open>
  Time is the wall clock of the server's zone, which is taken to keep one UTC offset.
  A \<open>TIMESTAMP\<close> column counts microseconds, a JavaScript \<open>Date\<close> milliseconds.
\<close>

type_synonym timestamp = int
type_synonym jsdate = int

definition pg_timestamp :: "jsdate \<Rightarrow> timestamp" where
  "pg_timestamp d = d * 1000"

definition js_date :: "timestamp \<Rightarrow> jsdate" where
  "js_date t = t div 1000"

text \<open>The rows of \<open>impulse_logs\<close> and \<open>reports\<close> (the \<open>created_at\<close> columns are left out).\<close>

record log =
  log_id :: int
  datetime :: timestamp
  feeling :: jstring
  acted :: jstring

record report =
  report_id :: int
  week_start :: int
  week_end :: int
  content :: jstring

text \<open>
  What a handler binds to a query parameter, as PostgreSQL reads it: SQL \<open>NULL\<close> (the
  field is absent or null), a text that is not a literal of the column's type, or a value.
\<close>

datatype 'a param = Null | Malformed | Value 'a

section \<open>Strings of the platform\<close>

text \<open>
  The code units that the regular expression class \<open>\s\<close> and \<open>String.prototype.trim\<close>
  take for white space: the ECMAScript white space and line terminator code points.
\<close>

definition isWhiteSpace :: "nat \<Rightarrow> bool" where
  "isWhiteSpace c \<longleftrightarrow>
     (0x09 \<le> c \<and> c \<le> 0x0D) \<or> c = 0x20 \<or> c = 0xA0 \<or> c = 0x1680 \<or>
     (0x2000 \<le> c \<and> c \<le> 0x200A) \<or> c = 0x2028 \<or> c = 0x2029 \<or> c = 0x202F \<or>
     c = 0x205F \<or> c = 0x3000 \<or> c = 0xFEFF"

text \<open>
  \<open>s.split(/\s+/)\<close>: the pieces of \<open>s\<close> between its maximal runs of white space. A
  run at the start or at the end of \<open>s\<close> leaves an empty piece there, and the empty
  string splits into one empty piece. The flag says that the code unit before was white
  space.
\<close>

fun splitFrom :: "bool \<Rightarrow> jstring \<Rightarrow> jstring list" where
  "splitFrom inSeparator [] = [[]]"
| "splitFrom inSeparator (c # cs) =
     (if isWhiteSpace c then
        (if inSeparator then splitFrom True cs else [] # splitFrom True cs)
      else
        (case splitFrom False cs of
           [] \<Rightarrow> [[c]]
         | w # ws \<Rightarrow> (c # w) # ws))"

definition split_whitespace :: "jstring \<Rightarrow> jstring list" where
  "split_whitespace s = splitFrom False s"

definition trim :: "jstring \<Rightarrow> jstring" where
  "trim s = rev (dropWhile isWhiteSpace (rev (dropWhile isWhiteSpace s)))"

text \<open>
  \<open>String.prototype.toLowerCase\<close> follows the Unicode case tables, which are no part of
  the repository: the functions below take it as their first argument.
  \<open>toLowerCase_ascii\<close> is what it does on ASCII text.
\<close>

definition toLowerCase_ascii :: "jstring \<Rightarrow> jstring" where
  "toLowerCase_ascii s = map (\<lambda>c. if 0x41 \<le> c \<and> c \<le> 0x5A then c + 0x20 else c) s"

definition isDigit :: "nat \<Rightarrow> bool" where
  "isDigit c \<longleftrightarrow> 0x30 \<le> c \<and> c \<le> 0x39"

section \<open>Numbers of the platform\<close>

text \<open>
  A JavaScript number is an IEEE 754 double. The ones met here are not negative:
  \<open>Finite m e\<close> is \<open>m * 2 ^ e\<close>. The range of the exponent is not modelled; the counts of
  a result set are far inside it, and they are integers below \<open>2 ^ 53\<close>, which a double
  holds exactly.

  \<open>toDouble n d\<close> is the double nearest to the fraction \<open>n / d\<close>, ties going to the even
  significand of 53 bits, as every arithmetic operation of the platform rounds its exact
  result. \<open>scaled n d e\<close> is the fraction \<open>n / d\<close> divided by \<open>2 ^ e\<close>.
\<close>

datatype double = NaN | Infinity | Finite nat int

definition roundTiesToEven :: "nat \<Rightarrow> nat \<Rightarrow> nat" where
  "roundTiesToEven n d =
     (let q = n div d; r = n mod d
      in if 2 * r < d then q else if d < 2 * r then q + 1 else if even q then q else q + 1)"

definition scaled :: "nat \<Rightarrow> nat \<Rightarrow> int \<Rightarrow> nat \<times> nat" where
  "scaled n d e = (if 0 \<le> e then (n, d * 2 ^ nat e) else (n * 2 ^ nat (- e), d))"

definition toDouble :: "nat \<Rightarrow> nat \<Rightarrow> double" where
  "toDouble n d =
     (if n = 0 then Finite 0 0
      else
        (let k = int (floorlog 2 n) - int (floorlog 2 d);
             (n1, d1) = scaled n d (k - 53)
         in if n1 < 2 ^ 53 * d1 then Finite (roundTiesToEven n1 d1) (k - 53)
            else (let (n2, d2) = scaled n d (k - 52) in Finite (roundTiesToEven n2 d2) (k - 52))))"

text \<open>\<open>x / y\<close> for two counts, \<open>x * c\<close> for a double and a count, and \<open>Math.round\<close>,
  which gives the integer nearest to its argument and the greater one of two equally near.\<close>

definition double_divide :: "nat \<Rightarrow> nat \<Rightarrow> double" where
  "double_divide x y = (if y = 0 then (if x = 0 then NaN else Infinity) else toDouble x y)"

definition double_times :: "double \<Rightarrow> nat \<Rightarrow> double" where
  "double_times x c =
     (case x of
        NaN \<Rightarrow> NaN
      | Infinity \<Rightarrow> (if c = 0 then NaN else Infinity)
      | Finite m e \<Rightarrow> (let (n, d) = scaled (m * c) 1 (- e) in toDouble n d))"

definition Math_round :: "double \<Rightarrow> double" where
  "Math_round x =
     (case x of
        Finite m e \<Rightarrow> (let (n, d) = scaled m 1 (- e) in Finite ((2 * n + d) div (2 * d)) 0)
      | _ \<Rightarrow> x)"

section \<open>Objects of the platform\<close>

text \<open>
  An object is the list of its own properties, keys and values, in the order of their
  creation.
\<close>

text \<open>
  \<open>Object.entries\<close> lists the keys that are array indices first (canonical decimal
  numerals up to \<open>2 ^ 32 - 2\<close>), by ascending value, then the other keys in the order of
  their creation.
\<close>

definition decimal :: "jstring \<Rightarrow> nat" where
  "decimal ds = foldl (\<lambda>n d. 10 * n + (d - 0x30)) 0 ds"

definition arrayIndex :: "jstring \<Rightarrow> nat option" where
  "arrayIndex k =
     (if k \<noteq> [] \<and> list_all isDigit k \<and> (hd k = 0x30 \<longrightarrow> length k = 1) \<and> decimal k \<le> 4294967294
      then Some (decimal k) else None)"

definition Object_entries :: "(jstring \<times> 'v) list \<Rightarrow> (jstring \<times> 'v) list" where
  "Object_entries obj =
     sort_key (\<lambda>(k, v). case arrayIndex k of Some i \<Rightarrow> i | None \<Rightarrow> 0)
       (filter (\<lambda>(k, v). arrayIndex k \<noteq> None) obj)
     @ filter (\<lambda>(k, v). arrayIndex k = None) obj"

text \<open>
  Defining a property whose key the object has already puts the new value in the place of
  the old one; a new key comes last.
\<close>

definition defineProperty :: "(jstring \<times> 'v) list \<Rightarrow> jstring \<times> 'v \<Rightarrow> (jstring \<times> 'v) list" where
  "defineProperty obj kv =
     (if fst kv \<in> fst ` set obj
      then map (\<lambda>(k, v). if k = fst kv then kv else (k, v)) obj
      else obj @ [kv])"

section \<open>JSON.parse\<close>

text \<open>
  The values of JSON texts. \<open>JSON_parse\<close> follows the grammar of ECMA-404: \<open>None\<close>
  stands for the \<open>SyntaxError\<close> that \<open>JSON.parse\<close> throws. An object holds its
  properties as \<open>Object.entries\<close> lists them, a key that the text repeats with its last
  value. A number is held as its literal: the double that the literal denotes, and so the
  form in which the number is printed again, is not modelled.
\<close>

datatype json =
    JNull
  | JBool bool
  | JNumber jstring
  | JString jstring
  | JArray "json list"
  | JObject "(jstring \<times> json) list"

datatype token =
    LBrace | RBrace | LBracket | RBracket | Colon | Comma
  | TString jstring | TNumber jstring | TTrue | TFalse | TNull

definition jsonWhiteSpace :: "nat \<Rightarrow> bool" where
  "jsonWhiteSpace c \<longleftrightarrow> c = 0x20 \<or> c = 0x09 \<or> c = 0x0A \<or> c = 0x0D"

definition hexDigit :: "nat \<Rightarrow> nat option" where
  "hexDigit c =
     (if isDigit c then Some (c - 0x30)
      else if 0x41 \<le> c \<and> c \<le> 0x46 then Some (c - 0x37)
      else if 0x61 \<le> c \<and> c \<le> 0x66 then Some (c - 0x57)
      else None)"

definition escaped :: "nat \<Rightarrow> nat option" where
  "escaped c =
     (if c = 0x22 \<or> c = 0x5C \<or> c = 0x2F then Some c
      else if c = 0x62 then Some 0x08
      else if c = 0x66 then Some 0x0C
      else if c = 0x6E then Some 0x0A
      else if c = 0x72 then Some 0x0D
      else if c = 0x74 then Some 0x09
      else None)"

text \<open>The code unit an escape sequence stands for, with the text after it; \<open>s\<close> starts
  after the backslash.\<close>

definition escapeSequence :: "jstring \<Rightarrow> (nat \<times> jstring) option" where
  "escapeSequence s =
     (case s of
        [] \<Rightarrow> None
      | e # r \<Rightarrow>
          if e = 0x75 then
            (case r of
               h1 # h2 # h3 # h4 # r' \<Rightarrow>
                 (case (hexDigit h1, hexDigit h2, hexDigit h3, hexDigit h4) of
                    (Some a, Some b, Some c, Some d) \<Rightarrow> Some (((a * 16 + b) * 16 + c) * 16 + d, r')
                  | _ \<Rightarrow> None)
             | _ \<Rightarrow> None)
          else map_option (\<lambda>u. (u, r)) (escaped e))"

lemma escapeSequence_shorter:
  "escapeSequence s = Some (u, rest) \<Longrightarrow> length rest < length s"
  by (auto simp: escapeSequence_def split: list.splits if_splits option.splits)

text \<open>The content of a string literal from after its opening quote, with the text after
  the closing quote.\<close>

function stringBody :: "jstring \<Rightarrow> jstring \<Rightarrow> (jstring \<times> jstring) option" where
  "stringBody acc [] = None"
| "stringBody acc (c # cs) =
     (if c = 0x22 then Some (rev acc, cs)
      else if c < 0x20 then None
      else if c = 0x5C then
        (case escapeSequence cs of
           None \<Rightarrow> None
         | Some (u, rest) \<Rightarrow> stringBody (u # acc) rest)
      else stringBody (c # acc) cs)"
  by pat_completeness auto
termination
  by (relation "measure (\<lambda>(acc, s). length s)")
     (auto dest: escapeSequence_shorter)

text \<open>A number literal: an optional minus sign, \<open>0\<close> or digits with no leading \<open>0\<close>,
  an optional fraction and an optional exponent. Each scanner gives the text after its
  part.\<close>

definition afterSign :: "jstring \<Rightarrow> jstring" where
  "afterSign s = (case s of [] \<Rightarrow> s | c # r \<Rightarrow> if c = 0x2D then r else s)"

definition afterInt :: "jstring \<Rightarrow> jstring option" where
  "afterInt s =
     (case s of
        [] \<Rightarrow> None
      | c # r \<Rightarrow> if c = 0x30 then Some r else if isDigit c then Some (dropWhile isDigit r) else None)"

definition afterDigits :: "jstring \<Rightarrow> jstring option" where
  "afterDigits s =
     (case s of
        [] \<Rightarrow> None
      | c # r \<Rightarrow> if isDigit c then Some (dropWhile isDigit r) else None)"

definition afterFraction :: "jstring \<Rightarrow> jstring option" where
  "afterFraction s =
     (case s of
        [] \<Rightarrow> Some s
      | c # r \<Rightarrow> if c = 0x2E then afterDigits r else Some s)"

definition afterExponent :: "jstring \<Rightarrow> jstring option" where
  "afterExponent s =
     (case s of
        [] \<Rightarrow> Some s
      | c # r \<Rightarrow>
          if c = 0x65 \<or> c = 0x45 then
            (case r of
               [] \<Rightarrow> None
             | g # r' \<Rightarrow> if g = 0x2B \<or> g = 0x2D then afterDigits r' else afterDigits r)
          else Some s)"

definition numberEnd :: "jstring \<Rightarrow> jstring option" where
  "numberEnd s = Option.bind (Option.bind (afterInt (afterSign s)) afterFraction) afterExponent"

lemma stringBody_shorter:
  "stringBody acc cs = Some (str, rest) \<Longrightarrow> length rest < length cs"
  by (induction acc cs arbitrary: str rest rule: stringBody.induct)
     (fastforce split: if_splits option.splits dest: escapeSequence_shorter)+

lemma afterDigits_shorter: "afterDigits s = Some rest \<Longrightarrow> length rest < length s"
  by (auto simp: afterDigits_def le_imp_less_Suc length_dropWhile_le split: list.splits if_splits)

lemma afterInt_shorter: "afterInt s = Some rest \<Longrightarrow> length rest < length s"
  by (auto simp: afterInt_def le_imp_less_Suc length_dropWhile_le split: list.splits if_splits)

lemma afterFraction_shorter: "afterFraction s = Some rest \<Longrightarrow> length rest \<le> length s"
  by (auto simp: afterFraction_def split: list.splits if_splits dest!: afterDigits_shorter)

lemma afterExponent_shorter: "afterExponent s = Some rest \<Longrightarrow> length rest \<le> length s"
  by (auto simp: afterExponent_def split: list.splits if_splits dest!: afterDigits_shorter)

lemma afterSign_shorter: "length (afterSign s) \<le> length s"
  by (simp add: afterSign_def split: list.splits)

lemma numberEnd_shorter:
  assumes "numberEnd s = Some rest"
  shows "length rest < length s"
proof -
  from assms obtain a b where a: "afterInt (afterSign s) = Some a"
    and b: "afterFraction a = Some b" and c: "afterExponent b = Some rest"
    by (auto simp: numberEnd_def split: Option.bind_splits)
  have "length a < length (afterSign s)" using a by (rule afterInt_shorter)
  moreover have "length b \<le> length a" using b by (rule afterFraction_shorter)
  moreover have "length rest \<le> length b" using c by (rule afterExponent_shorter)
  ultimately show ?thesis using afterSign_shorter [of s] by linarith
qed

text \<open>The tokens of a JSON text.\<close>

function tokenize :: "jstring \<Rightarrow> token list option" where
  "tokenize [] = Some []"
| "tokenize (c # cs) =
     (if jsonWhiteSpace c then tokenize cs
      else if c = 0x7B then map_option ((#) LBrace) (tokenize cs)
      else if c = 0x7D then map_option ((#) RBrace) (tokenize cs)
      else if c = 0x5B then map_option ((#) LBracket) (tokenize cs)
      else if c = 0x5D then map_option ((#) RBracket) (tokenize cs)
      else if c = 0x3A then map_option ((#) Colon) (tokenize cs)
      else if c = 0x2C then map_option ((#) Comma) (tokenize cs)
      else if c = 0x22 then
        (case stringBody [] cs of
           None \<Rightarrow> None
         | Some (str, rest) \<Rightarrow> map_option ((#) (TString str)) (tokenize rest))
      else if take 4 (c # cs) = utf16 ''true'' then map_option ((#) TTrue) (tokenize (drop 3 cs))
      else if take 5 (c # cs) = utf16 ''false'' then map_option ((#) TFalse) (tokenize (drop 4 cs))
      else if take 4 (c # cs) = utf16 ''null'' then map_option ((#) TNull) (tokenize (drop 3 cs))
      else
        (case numberEnd (c # cs) of
           None \<Rightarrow> None
         | Some rest \<Rightarrow>
             map_option ((#) (TNumber (take (length (c # cs) - length rest) (c # cs))))
               (tokenize rest)))"
  by pat_completeness auto
termination
  by (relation "measure length")
     (auto dest: stringBody_shorter numberEnd_shorter)

text \<open>
  The parser reads the tokens from left to right. It keeps the arrays and objects that
  are still open, innermost first (the elements and members read so far, last first, and
  for an object the key whose value is awaited), and what may come next.
\<close>

datatype frame = InArray "json list" | InObject "(jstring \<times> json) list" "jstring option"

datatype expecting =
    AValue | AValueOrClose | AKey | AKeyOrClose | AColon | ACommaOrClose | TheEnd json

fun completed :: "json \<Rightarrow> frame list \<Rightarrow> (expecting \<times> frame list) option" where
  "completed v [] = Some (TheEnd v, [])"
| "completed v (InArray vs # st) = Some (ACommaOrClose, InArray (v # vs) # st)"
| "completed v (InObject ms (Some k) # st) = Some (ACommaOrClose, InObject ((k, v) # ms) None # st)"
| "completed v (InObject ms None # st) = None"

fun scalar :: "token \<Rightarrow> json option" where
  "scalar (TString s) = Some (JString s)"
| "scalar (TNumber n) = Some (JNumber n)"
| "scalar TTrue = Some (JBool True)"
| "scalar TFalse = Some (JBool False)"
| "scalar TNull = Some JNull"
| "scalar _ = None"

fun closes :: "token \<Rightarrow> frame list \<Rightarrow> (expecting \<times> frame list) option" where
  "closes RBracket (InArray vs # st) = completed (JArray (rev vs)) st"
| "closes RBrace (InObject ms None # st) =
     completed (JObject (Object_entries (foldl defineProperty [] (rev ms)))) st"
| "closes _ _ = None"

definition keyStep :: "frame list \<Rightarrow> token \<Rightarrow> (expecting \<times> frame list) option" where
  "keyStep st t =
     (case (t, st) of
        (TString k, InObject ms None # st') \<Rightarrow> Some (AColon, InObject ms (Some k) # st')
      | _ \<Rightarrow> None)"

definition valueStep :: "frame list \<Rightarrow> token \<Rightarrow> (expecting \<times> frame list) option" where
  "valueStep st t =
     (if t = LBracket then Some (AValueOrClose, InArray [] # st)
      else if t = LBrace then Some (AKeyOrClose, InObject [] None # st)
      else (case scalar t of Some v \<Rightarrow> completed v st | None \<Rightarrow> None))"

fun step :: "expecting \<Rightarrow> frame list \<Rightarrow> token \<Rightarrow> (expecting \<times> frame list) option" where
  "step (TheEnd v) st t = None"
| "step AColon st t = (if t = Colon then Some (AValue, st) else None)"
| "step ACommaOrClose st t =
     (if t = Comma then
        (case st of
           InArray vs # _ \<Rightarrow> Some (AValue, st)
         | InObject ms k # _ \<Rightarrow> Some (AKey, st)
         | [] \<Rightarrow> None)
      else closes t st)"
| "step AKey st t = keyStep st t"
| "step AKeyOrClose st t = (if t = RBrace then closes t st else keyStep st t)"
| "step AValue st t = valueStep st t"
| "step AValueOrClose st t = (if t = RBracket then closes t st else valueStep st t)"

fun parseTokens :: "expecting \<Rightarrow> frame list \<Rightarrow> token list \<Rightarrow> json option" where
  "parseTokens e st [] = (case e of TheEnd v \<Rightarrow> Some v | _ \<Rightarrow> None)"
| "parseTokens e st (t # ts) =
     (case step e st t of
        None \<Rightarrow> None
      | Some (e', st') \<Rightarrow> parseTokens e' st' ts)"

definition JSON_parse :: "jstring \<Rightarrow> json option" where
  "JSON_parse text = (case tokenize text of None \<Rightarrow> None | Some ts \<Rightarrow> parseTokens AValue [] ts)"

section \<open>Statistics of a week\<close>

text \<open>
  The figures that \<open>POST /api/reports/generate\<close> computes from the rows \<open>logs\<close> of its
  query, in the order of the source.
\<close>

definition totalImpulses :: "log list \<Rightarrow> nat" where
  "totalImpulses logs = length logs"

definition actedImpulses :: "log list \<Rightarrow> nat" where
  "actedImpulses logs = length (filter (\<lambda>l. acted l = utf16 ''yes'') logs)"

definition resistedImpulses :: "log list \<Rightarrow> nat" where
  "resistedImpulses logs = totalImpulses logs - actedImpulses logs"

definition resistanceRate :: "log list \<Rightarrow> double" where
  "resistanceRate logs =
     Math_round (double_times (double_divide (resistedImpulses logs) (totalImpulses logs)) 100)"

text \<open>
  \<open>hourlyStats\<close> is the array of 24 counters; \<open>getHours\<close> reads the hour of the day off
  a \<open>Date\<close>. \<open>Math.max(...hourlyStats)\<close> is the greatest counter (the counters are not
  negative and there are 24 of them), \<open>indexOf\<close> the first index that holds a value, or
  \<open>-1\<close>.
\<close>

definition getHours :: "jsdate \<Rightarrow> nat" where
  "getHours d = nat ((d div 3600000) mod 24)"

definition hourlyStats :: "log list \<Rightarrow> nat list" where
  "hourlyStats logs =
     foldl (\<lambda>stats l. let hour = getHours (js_date (datetime l)) in stats[hour := stats ! hour + 1])
       (replicate 24 0) logs"

definition Math_max :: "nat list \<Rightarrow> nat" where
  "Math_max xs = fold max xs 0"

fun indexOf :: "nat list \<Rightarrow> nat \<Rightarrow> int" where
  "indexOf [] v = - 1"
| "indexOf (x # xs) v =
     (if x = v then 0 else (let i = indexOf xs v in if i < 0 then - 1 else i + 1))"

definition peakHour :: "log list \<Rightarrow> int" where
  "peakHour logs = indexOf (hourlyStats logs) (Math_max (hourlyStats logs))"

text \<open>
  \<open>emotionWords\<close> is an object literal used as a dictionary: its own properties in the
  order of their creation, here a list of keys and values. A value is a count, or a
  string, which arithmetic reads as \<open>NaN\<close>.

  \<open>emotionWords[word] = (emotionWords[word] || 0) + 1\<close> reads through the prototype chain.
  For a word that names a function of \<open>Object.prototype\<close> the first read gives that
  function, the sum is a string, and the assignment makes it an own property; every later
  sum is a string again. For \<open>__proto__\<close> the read gives the prototype object and the
  assignment of the string to the accessor is ignored.
\<close>

datatype jsvalue = Number nat | Text

definition inheritedFunction :: "jstring \<Rightarrow> bool" where
  "inheritedFunction w \<longleftrightarrow>
     w \<in> set (map utf16 [''constructor'', ''hasOwnProperty'', ''isPrototypeOf'',
       ''propertyIsEnumerable'', ''toLocaleString'', ''toString'', ''valueOf'',
       ''__defineGetter__'', ''__defineSetter__'', ''__lookupGetter__'', ''__lookupSetter__''])"

definition prototypeProperty :: "jstring \<Rightarrow> bool" where
  "prototypeProperty w \<longleftrightarrow> inheritedFunction w \<or> w = utf16 ''__proto__''"

definition countWord :: "(jstring \<times> jsvalue) list \<Rightarrow> jstring \<Rightarrow> (jstring \<times> jsvalue) list" where
  "countWord emotionWords word =
     (case map_of emotionWords word of
        Some (Number n) \<Rightarrow>
          map (\<lambda>(k, v). if k = word then (k, Number (n + 1)) else (k, v)) emotionWords
      | Some Text \<Rightarrow> emotionWords
      | None \<Rightarrow>
          if word = utf16 ''__proto__'' then emotionWords
          else if inheritedFunction word then emotionWords @ [(word, Text)]
          else emotionWords @ [(word, Number 1)])"

text \<open>The words of the window: every piece of every lower-cased \<open>feeling\<close>, in order.\<close>

definition emotionTokens :: "(jstring \<Rightarrow> jstring) \<Rightarrow> log list \<Rightarrow> jstring list" where
  "emotionTokens toLowerCase logs =
     concat (map (\<lambda>l. split_whitespace (toLowerCase (feeling l))) logs)"

text \<open>
  The comparison function \<open>(a, b) => b[1] - a[1]\<close>; \<open>None\<close> is \<open>NaN\<close>.
  \<open>Array.prototype.sort\<close> is stable, puts \<open>a\<close> after \<open>b\<close> when the comparison is
  positive and takes \<open>NaN\<close> for zero: here by insertion from the right. (With a
  comparison that is not consistent, which needs a \<open>Text\<close> value, the platform may order
  the entries in another way.)
\<close>

definition byCountDescending :: "jstring \<times> jsvalue \<Rightarrow> jstring \<times> jsvalue \<Rightarrow> int option" where
  "byCountDescending a b =
     (case (snd b, snd a) of
        (Number y, Number x) \<Rightarrow> Some (int y - int x)
      | _ \<Rightarrow> None)"

fun insertSorted :: "('a \<Rightarrow> 'a \<Rightarrow> int option) \<Rightarrow> 'a \<Rightarrow> 'a list \<Rightarrow> 'a list" where
  "insertSorted cmp x [] = [x]"
| "insertSorted cmp x (y # ys) =
     (case cmp x y of
        Some v \<Rightarrow> if 0 < v then y # insertSorted cmp x ys else x # y # ys
      | None \<Rightarrow> x # y # ys)"

definition Array_sort :: "('a \<Rightarrow> 'a \<Rightarrow> int option) \<Rightarrow> 'a list \<Rightarrow> 'a list" where
  "Array_sort cmp xs = foldr (insertSorted cmp) xs []"

text \<open>The count that a value stands for in the proofs below.\<close>

definition numberOf :: "jsvalue \<Rightarrow> nat" where
  "numberOf v = (case v of Number n \<Rightarrow> n | Text \<Rightarrow> 0)"

definition emotionWords :: "(jstring \<Rightarrow> jstring) \<Rightarrow> log list \<Rightarrow> (jstring \<times> jsvalue) list" where
  "emotionWords toLowerCase logs = foldl countWord [] (emotionTokens toLowerCase logs)"

definition topEmotions :: "(jstring \<Rightarrow> jstring) \<Rightarrow> log list \<Rightarrow> jstring list" where
  "topEmotions toLowerCase logs =
     map fst (take 3 (Array_sort byCountDescending (Object_entries (emotionWords toLowerCase logs))))"

section \<open>Server state and completion service\<close>

text \<open>
  The state that the handlers share: both tables with their \<open>SERIAL\<close> sequences (the
  last value handed out) and the requests sent to the completion service so far. Failures
  of the connection to the database are left out: a statement fails on its data only.

  A request to the completion service is the text that a handler puts into its prompt,
  here the values it interpolates. The service rejects the request, or resolves with a
  list of choices, each with a message content that may be \<open>null\<close>.
\<close>

datatype request =
    EmotionRequest jstring
  | ReportRequest jsdate jsdate nat nat nat double int "jstring list"

datatype completion = Rejected | Resolved "jstring option list"

record state =
  impulse_logs :: "log list"
  impulse_logs_id_seq :: int
  reports :: "report list"
  reports_id_seq :: int
  openai_requests :: "request list"

datatype payload =
    Error jstring
  | LogRow log
  | ReportRow report
  | Analysis json
  | NoBody

datatype response = Response nat payload

text \<open>The messages of the error responses and the texts that stand in for an empty
  completion, as the source has them.\<close>

definition database_error :: jstring where
  "database_error = [0x6570, 0x636E, 0x5E93, 0x9519, 0x8BEF]"

definition feeling_required :: jstring where
  "feeling_required = [0x8BF7, 0x63D0, 0x4F9B, 0x60C5, 0x7EEA, 0x63CF, 0x8FF0]"

definition emotion_analysis_unavailable :: jstring where
  "emotion_analysis_unavailable =
     [0x60C5, 0x7EEA, 0x5206, 0x6790, 0x670D, 0x52A1, 0x6682, 0x65F6, 0x4E0D, 0x53EF, 0x7528]"

definition not_enough_data :: jstring where
  "not_enough_data =
     [0x6CA1, 0x6709, 0x8DB3, 0x591F, 0x7684, 0x6570, 0x636E, 0x751F, 0x6210, 0x62A5, 0x544A]"

definition report_generation_failed :: jstring where
  "report_generation_failed = [0x751F, 0x6210, 0x62A5, 0x544A, 0x5931, 0x8D25]"

definition no_insights :: jstring where
  "no_insights = [0x65E0, 0x6CD5, 0x751F, 0x6210, 0x6D1E, 0x5BDF]"

section \<open>Log store\<close>

text \<open>
  The number of characters of a text: a surrogate pair is one character.
  \<open>VARCHAR(10)\<close> refuses a text of more than ten characters unless the excess is blanks.
\<close>

fun characters :: "jstring \<Rightarrow> nat" where
  "characters [] = 0"
| "characters [c] = 1"
| "characters (c # d # s) =
     (if 0xD800 \<le> c \<and> c \<le> 0xDBFF \<and> 0xDC00 \<le> d \<and> d \<le> 0xDFFF
      then 1 + characters s else 1 + characters (d # s))"

definition tooLong :: "jstring param \<Rightarrow> bool" where
  "tooLong p =
     (case p of
        Value a \<Rightarrow> 10 < characters (rev (dropWhile (\<lambda>c. c = 0x20) (rev a)))
      | _ \<Rightarrow> False)"

text \<open>
  \<open>POST /api/logs\<close>: the three fields of the body go to the \<open>INSERT\<close> as they come; the
  handler checks none of them. The statement fails before it runs on a parameter that is
  no literal of its column's type or is too long for \<open>VARCHAR(10)\<close>; a row that breaks
  \<open>NOT NULL\<close> or the \<open>CHECK\<close> on \<open>acted\<close> is refused after its \<open>id\<close> was drawn
  from the sequence. Every failure is caught and answered with status 500.
\<close>

definition submitLog ::
  "timestamp param \<Rightarrow> jstring param \<Rightarrow> jstring param \<Rightarrow> state \<Rightarrow> response \<times> state" where
  "submitLog dt fl ac s =
     (if dt = Malformed \<or> fl = Malformed \<or> ac = Malformed \<or> tooLong ac
      then (Response 500 (Error database_error), s)
      else
        (let i = impulse_logs_id_seq s + 1 in
         case (dt, fl, ac) of
           (Value d, Value f, Value a) \<Rightarrow>
             if a = utf16 ''yes'' \<or> a = utf16 ''no'' then
               (let row = \<lparr>log_id = i, datetime = d, feeling = f, acted = a\<rparr> in
                (Response 201 (LogRow row),
                 s\<lparr>impulse_logs := impulse_logs s @ [row], impulse_logs_id_seq := i\<rparr>))
             else (Response 500 (Error database_error), s\<lparr>impulse_logs_id_seq := i\<rparr>)
         | _ \<Rightarrow> (Response 500 (Error database_error), s\<lparr>impulse_logs_id_seq := i\<rparr>)))"

text \<open>
  \<open>DELETE /api/logs/:id\<close>: the path segment is bound to \<open>WHERE id = $1\<close>, where
  \<open>id\<close> is an \<open>integer\<close> column of 32 bits. A segment that is no integer literal, or
  one whose value is outside the range of the column, makes the statement fail (status
  500); otherwise every row with that id goes, and the answer is 204 whether or not there
  was one.
\<close>

definition int4 :: "int \<Rightarrow> bool" where
  "int4 i \<longleftrightarrow> - 2147483648 \<le> i \<and> i \<le> 2147483647"

definition deleteLog :: "int param \<Rightarrow> state \<Rightarrow> response \<times> state" where
  "deleteLog p s =
     (case p of
        Malformed \<Rightarrow> (Response 500 (Error database_error), s)
      | Null \<Rightarrow> (Response 204 NoBody, s)
      | Value i \<Rightarrow>
          if int4 i then
            (Response 204 NoBody,
             s\<lparr>impulse_logs := filter (\<lambda>l. log_id l \<noteq> i) (impulse_logs s)\<rparr>)
          else (Response 500 (Error database_error), s))"

section \<open>Chat context\<close>

text \<open>
  The query of \<open>POST /api/chat\<close>:
  \<open>WHERE datetime >= NOW() - INTERVAL '7 days' ORDER BY datetime DESC LIMIT 10\<close>, with
  \<open>now\<close> for \<open>NOW()\<close>. Rows of one \<open>datetime\<close> keep the order of the table, which SQL
  leaves open. The handler renders each row of the result as one line of the prompt.
\<close>

definition sevenDays :: timestamp where
  "sevenDays = 7 * 86400000000"

definition chatContextRows :: "timestamp \<Rightarrow> log list \<Rightarrow> log list" where
  "chatContextRows now logs =
     take 10 (sort_key (\<lambda>l. - datetime l) (filter (\<lambda>l. now - sevenDays \<le> datetime l) logs))"

section \<open>Emotion analysis\<close>

text \<open>
  The value that \<open>POST /api/analyze-emotion\<close> puts in place of a completion that
  \<open>JSON.parse\<close> refuses. \<open>analysisOf\<close> is the inner \<open>try\<close> of the handler: it parses
  \<open>analysisText || '{}'\<close>, so a \<open>null\<close> or empty completion is read as \<open>{}\<close>.
\<close>

definition fallbackAnalysis :: json where
  "fallbackAnalysis =
     JObject
       [(utf16 ''primaryEmotion'', JString [0x672A, 0x77E5]),
        (utf16 ''intensity'', JNumber (utf16 ''5'')),
        (utf16 ''triggers'', JArray [JString [0x65E0, 0x6CD5, 0x786E, 0x5B9A]]),
        (utf16 ''copingStrategies'',
           JArray [JString [0x6DF1, 0x547C, 0x5438], JString [0x5BFB, 0x6C42, 0x652F, 0x6301]])]"

definition analysisOf :: "jstring option \<Rightarrow> json" where
  "analysisOf analysisText =
     (case JSON_parse (case analysisText of
                         None \<Rightarrow> utf16 ''{}''
                       | Some t \<Rightarrow> if t = [] then utf16 ''{}'' else t) of
        Some analysis \<Rightarrow> analysis
      | None \<Rightarrow> fallbackAnalysis)"

text \<open>
  The handler: a missing or blank \<open>feeling\<close> is answered with status 400 before anything
  else; a request that the service rejects, or resolves without a choice, with status
  500; every other completion with the analysis.
\<close>

definition analyzeEmotion ::
  "(request \<Rightarrow> completion) \<Rightarrow> jstring option \<Rightarrow> state \<Rightarrow> response \<times> state" where
  "analyzeEmotion openai fl s =
     (case fl of
        None \<Rightarrow> (Response 400 (Error feeling_required), s)
      | Some f \<Rightarrow>
          if f = [] \<or> trim f = [] then (Response 400 (Error feeling_required), s)
          else
            (let s' = s\<lparr>openai_requests := openai_requests s @ [EmotionRequest f]\<rparr>
             in case openai (EmotionRequest f) of
                  Rejected \<Rightarrow> (Response 500 (Error emotion_analysis_unavailable), s')
                | Resolved [] \<Rightarrow> (Response 500 (Error emotion_analysis_unavailable), s')
                | Resolved (analysisText # _) \<Rightarrow>
                    (Response 200 (Analysis (analysisOf analysisText)), s')))"

section \<open>Report assembler\<close>

text \<open>
  The query of \<open>POST /api/reports/generate\<close>:
  \<open>WHERE datetime BETWEEN $1 AND $2 ORDER BY datetime\<close>, bound to \<open>weekStart\<close> and
  \<open>weekEnd\<close>. Rows of one \<open>datetime\<close> keep the order of the table.
\<close>

definition selectWindow :: "jsdate \<Rightarrow> jsdate \<Rightarrow> log list \<Rightarrow> log list" where
  "selectWindow weekStart weekEnd logs =
     sort_key datetime
       (filter (\<lambda>l. pg_timestamp weekStart \<le> datetime l \<and> datetime l \<le> pg_timestamp weekEnd) logs)"

text \<open>The values that the handler interpolates into the prompt \<open>context\<close>.\<close>

definition reportContext ::
  "(jstring \<Rightarrow> jstring) \<Rightarrow> jsdate \<Rightarrow> jsdate \<Rightarrow> log list \<Rightarrow> request" where
  "reportContext toLowerCase weekStart weekEnd logs =
     ReportRequest weekStart weekEnd (totalImpulses logs) (actedImpulses logs)
       (resistedImpulses logs) (resistanceRate logs) (peakHour logs) (topEmotions toLowerCase logs)"

text \<open>
  The handler reads the clock twice: \<open>weekEnd\<close> is the first reading, \<open>weekStart\<close> the
  second one set back by seven days. With no row in the window it answers 400 and does
  nothing else. A completion that fails (the request is rejected, or there is no choice
  to read) is caught and answered with status 500. Otherwise the content, or a fixed text
  when it is \<open>null\<close> or empty, is stored as a new report whose \<open>DATE\<close> columns keep
  the days of the two bounds.
\<close>

definition generateReport ::
  "(jstring \<Rightarrow> jstring) \<Rightarrow> (request \<Rightarrow> completion) \<Rightarrow> jsdate \<Rightarrow> jsdate \<Rightarrow> state
     \<Rightarrow> response \<times> state" where
  "generateReport toLowerCase openai clock1 clock2 s =
     (let weekEnd = clock1;
          weekStart = clock2 - 7 * 86400000;
          logs = selectWindow weekStart weekEnd (impulse_logs s)
      in if length logs = 0 then (Response 400 (Error not_enough_data), s)
         else
           (let context = reportContext toLowerCase weekStart weekEnd logs;
                s' = s\<lparr>openai_requests := openai_requests s @ [context]\<rparr>
            in case openai context of
                 Rejected \<Rightarrow> (Response 500 (Error report_generation_failed), s')
               | Resolved [] \<Rightarrow> (Response 500 (Error report_generation_failed), s')
               | Resolved (aiContent # _) \<Rightarrow>
                   (let insights = (case aiContent of
                                      None \<Rightarrow> no_insights
                                    | Some t \<Rightarrow> if t = [] then no_insights else t);
                        row = \<lparr>report_id = reports_id_seq s + 1,
                               week_start = weekStart div 86400000,
                               week_end = weekEnd div 86400000,
                               content = insights\<rparr>
                    in (Response 201 (ReportRow row),
                        s'\<lparr>reports := reports s @ [row], reports_id_seq := reports_id_seq s + 1\<rparr>))))"

section \<open>Quantities of the specification\<close>

text \<open>
  The specification speaks of the number of entries whose hour of the day is \<open>h\<close> and
  of the entries of the last seven days. They are written down here in its words, to
  state what the code computes.
\<close>

definition hourCount :: "log list \<Rightarrow> nat \<Rightarrow> nat" where
  "hourCount logs h = length (filter (\<lambda>l. getHours (js_date (datetime l)) = h) logs)"

definition lastSevenDays :: "timestamp \<Rightarrow> log list \<Rightarrow> log list" where
  "lastSevenDays now logs = filter (\<lambda>l. now - sevenDays \<le> datetime l \<and> datetime l \<le> now) logs"

text \<open>
  The percentage as the specification words it, the exact quotient rounded half up, and the
  fallback analysis with the labels that the specification prints.
\<close>

definition roundHalfUpPercent :: "nat \<Rightarrow> nat \<Rightarrow> nat" where
  "roundHalfUpPercent resisted n = (200 * resisted + n) div (2 * n)"

definition fallbackAnalysis_spec :: json where
  "fallbackAnalysis_spec =
     JObject
       [(utf16 ''primaryEmotion'', JString (utf16 ''unknown'')),
        (utf16 ''intensity'', JNumber (utf16 ''5'')),
        (utf16 ''triggers'', JArray [JString (utf16 ''undetermined'')]),
        (utf16 ''copingStrategies'',
           JArray [JString (utf16 ''breathe''), JString (utf16 ''seek support'')])]"

section \<open>Examples\<close>

text \<open>A state with empty tables, and a log entry at an hour and minute of day 0.\<close>

definition emptyState :: state where
  "emptyState =
     \<lparr>impulse_logs = [], impulse_logs_id_seq = 0, reports = [], reports_id_seq = 0,
      openai_requests = []\<rparr>"

definition entry :: "int \<Rightarrow> int \<Rightarrow> int \<Rightarrow> string \<Rightarrow> string \<Rightarrow> log" where
  "entry i h m f a =
     \<lparr>log_id = i, datetime = (h * 60 + m) * 60000000, feeling = utf16 f, acted = utf16 a\<rparr>"

text \<open>The scenario of the specification, and a table with eleven entries in the hours
  before noon of day 0 and one entry of more than eight days before.\<close>

definition scenario :: "log list" where
  "scenario =
     [entry 1 8 0 ''anxious about deadline'' ''no'', entry 2 8 30 ''anxious'' ''yes'',
      entry 3 14 0 ''bored'' ''no'']"

definition busyWeek :: "log list" where
  "busyWeek =
     map (\<lambda>i. entry i i 0 ''urge'' ''no'') [1, 2, 3, 4, 5, 6, 7, 8, 9, 10, 11]
     @ [entry 12 (- 200) 0 ''long ago'' ''yes'']"

text \<open>The same table with one more entry, dated a day after that noon.\<close>

definition busyWeekAhead :: "log list" where
  "busyWeekAhead = busyWeek @ [entry 13 36 0 ''tomorrow'' ''no'']"

text \<open>A window of forty entries, seventeen of them acted on.\<close>

definition halfResisted :: "log list" where
  "halfResisted =
     replicate 17 (entry 1 8 0 ''gave in'' ''yes'') @ replicate 23 (entry 2 9 0 ''held out'' ''no'')"

section \<open>Properties of the log store\<close>

lemma filter_absent_id:
  "i \<notin> log_id ` set ls \<Longrightarrow> filter (\<lambda>l. log_id l \<noteq> i) ls = ls"
  by (induction ls) auto

text \<open>
  Claim C10 says that deleting succeeds for every id that is not in the log store. As
  stated it fails: no row carries the id 99999999999, which is outside the range of the
  \<open>integer\<close> column, and no row carries a path segment that is not a number; for both
  the statement fails and the answer is status 500.
\<close>

theorem deleteLog_out_of_range_counterexample:
  "deleteLog (Value 99999999999) emptyState = (Response 500 (Error database_error), emptyState)
   \<and> deleteLog Malformed emptyState = (Response 500 (Error database_error), emptyState)"
  by (simp add: deleteLog_def int4_def)

text \<open>
  Claim C10, amended. For an id in the range of the \<open>integer\<close> column that no row of the
  log store carries, deleting answers 204 (no error, no "not found") and leaves the whole
  state as it was; for every id in that range the answer is 204. For an integer outside
  the range, and for a path segment that is not an integer, the answer is status 500 with
  the database error message and the state is as it was. In every case deleting a second
  time gives the same answer and the same state as deleting once.
\<close>

theorem deleteLog_absent_id:
  "(int4 i \<and> i \<notin> log_id ` set (impulse_logs s) \<longrightarrow>
      deleteLog (Value i) s = (Response 204 NoBody, s))
   \<and> (int4 i \<longrightarrow> fst (deleteLog (Value i) s) = Response 204 NoBody)
   \<and> (\<not> int4 i \<longrightarrow> deleteLog (Value i) s = (Response 500 (Error database_error), s))
   \<and> deleteLog Malformed s = (Response 500 (Error database_error), s)
   \<and> deleteLog p (snd (deleteLog p s)) = deleteLog p s"
  by (cases p) (simp_all add: deleteLog_def filter_absent_id)

theorem deleteLog_absent_id_witness:
  "int4 2
   \<and> deleteLog (Value 2) (emptyState\<lparr>impulse_logs := [entry 1 8 0 ''bored'' ''no'']\<rparr>)
       = (Response 204 NoBody, emptyState\<lparr>impulse_logs := [entry 1 8 0 ''bored'' ''no'']\<rparr>)
   \<and> \<not> int4 2147483648
   \<and> deleteLog (Value 2147483648) (emptyState\<lparr>impulse_logs := [entry 1 8 0 ''bored'' ''no'']\<rparr>)
       = (Response 500 (Error database_error),
          emptyState\<lparr>impulse_logs := [entry 1 8 0 ''bored'' ''no'']\<rparr>)"
  using deleteLog_absent_id [of 2 "emptyState\<lparr>impulse_logs := [entry 1 8 0 ''bored'' ''no'']\<rparr>"]
    deleteLog_absent_id [of 2147483648 "emptyState\<lparr>impulse_logs := [entry 1 8 0 ''bored'' ''no'']\<rparr>"]
  by (simp add: entry_def int4_def)

text \<open>
  Claim C9 says that a request with a missing or empty feeling fails with a validation
  error before any side effect. As stated it fails: in the empty state, the request with
  the empty feeling text, a valid time and \<open>acted = no\<close> is answered 201, and the row is
  in the table.
\<close>

theorem submitLog_empty_feeling_counterexample:
  "submitLog (Value 0) (Value []) (Value (utf16 ''no'')) emptyState =
     (Response 201 (LogRow \<lparr>log_id = 1, datetime = 0, feeling = [], acted = utf16 ''no''\<rparr>),
      emptyState\<lparr>impulse_logs := [\<lparr>log_id = 1, datetime = 0, feeling = [], acted = utf16 ''no''\<rparr>],
                 impulse_logs_id_seq := 1\<rparr>)"
  by (simp add: submitLog_def emptyState_def Let_def tooLong_def utf16_def)

text \<open>
  Claim C9, amended. The handler checks nothing itself. A request whose feeling is missing
  is refused by the table (\<open>NOT NULL\<close>): the answer is status 500 with the database
  error message, and no row is inserted. A request whose feeling is the empty text, with
  a time and \<open>acted\<close> being \<open>yes\<close> or \<open>no\<close>, is stored like any other and answered 201
  with the new row.
\<close>

theorem submitLog_feeling_unchecked:
  "fst (submitLog dt Null ac s) = Response 500 (Error database_error)
   \<and> impulse_logs (snd (submitLog dt Null ac s)) = impulse_logs s
   \<and> submitLog (Value d) (Value []) (Value (utf16 ''yes'')) s =
       (Response 201 (LogRow \<lparr>log_id = impulse_logs_id_seq s + 1, datetime = d, feeling = [],
                              acted = utf16 ''yes''\<rparr>),
        s\<lparr>impulse_logs := impulse_logs s @
              [\<lparr>log_id = impulse_logs_id_seq s + 1, datetime = d, feeling = [], acted = utf16 ''yes''\<rparr>],
          impulse_logs_id_seq := impulse_logs_id_seq s + 1\<rparr>)
   \<and> submitLog (Value d) (Value []) (Value (utf16 ''no'')) s =
       (Response 201 (LogRow \<lparr>log_id = impulse_logs_id_seq s + 1, datetime = d, feeling = [],
                              acted = utf16 ''no''\<rparr>),
        s\<lparr>impulse_logs := impulse_logs s @
              [\<lparr>log_id = impulse_logs_id_seq s + 1, datetime = d, feeling = [], acted = utf16 ''no''\<rparr>],
          impulse_logs_id_seq := impulse_logs_id_seq s + 1\<rparr>)"
proof -
  have short: "\<not> tooLong (Value (utf16 ''yes''))" "\<not> tooLong (Value (utf16 ''no''))"
    by (simp_all add: tooLong_def utf16_def)
  have "fst (submitLog dt Null ac s) = Response 500 (Error database_error)"
    by (cases dt; cases ac) (simp_all add: submitLog_def Let_def)
  moreover have "impulse_logs (snd (submitLog dt Null ac s)) = impulse_logs s"
    by (cases dt; cases ac) (simp_all add: submitLog_def Let_def)
  ultimately show ?thesis
    using short by (simp add: submitLog_def Let_def)
qed

section \<open>Properties of the report assembler\<close>

lemma selectWindow_empty:
  assumes "\<forall>l \<in> set logs. datetime l < pg_timestamp weekStart \<or> pg_timestamp weekEnd < datetime l"
  shows "selectWindow weekStart weekEnd logs = []"
proof -
  from assms
  have "filter (\<lambda>l. pg_timestamp weekStart \<le> datetime l \<and> datetime l \<le> pg_timestamp weekEnd) logs = []"
    by (auto simp: filter_empty_conv)
  then show ?thesis by (simp add: selectWindow_def)
qed

text \<open>
  Claim C1. When no log entry lies in the window of the query, the handler answers 400
  with the "not enough data" message (the spec's \<open>InsufficientData\<close>) and returns the
  state as it was: no report row is added, and no request goes to the completion service.
\<close>

theorem generateReport_empty_window:
  assumes "\<forall>l \<in> set (impulse_logs s).
             datetime l < pg_timestamp (clock2 - 7 * 86400000) \<or> pg_timestamp clock1 < datetime l"
  shows "generateReport toLowerCase openai clock1 clock2 s = (Response 400 (Error not_enough_data), s)"
  using selectWindow_empty [OF assms] by (simp add: generateReport_def)

theorem generateReport_empty_window_witness:
  "generateReport toLowerCase_ascii (\<lambda>r. Resolved [Some (utf16 ''fine'')]) 2592000000 2592000000
       (emptyState\<lparr>impulse_logs := [entry 1 8 0 ''bored'' ''no'']\<rparr>)
     = (Response 400 (Error not_enough_data), emptyState\<lparr>impulse_logs := [entry 1 8 0 ''bored'' ''no'']\<rparr>)"
  using generateReport_empty_window [of "emptyState\<lparr>impulse_logs := [entry 1 8 0 ''bored'' ''no'']\<rparr>"
      2592000000 2592000000 toLowerCase_ascii "\<lambda>r. Resolved [Some (utf16 ''fine'')]"]
  by (simp add: entry_def pg_timestamp_def)

text \<open>
  Claim C2. When the window holds an entry and the completion fails (the service rejects
  the request, or resolves with no choice to read), the handler answers 500 with the
  "report generation failed" message (the spec's \<open>ServiceUnavailable\<close>), and the state is
  the one before but for the record of the request sent: both tables and both sequences
  are untouched, so no report is persisted.
\<close>

theorem generateReport_completion_failure:
  assumes "selectWindow (clock2 - 7 * 86400000) clock1 (impulse_logs s) \<noteq> []"
    and "openai (reportContext toLowerCase (clock2 - 7 * 86400000) clock1
                   (selectWindow (clock2 - 7 * 86400000) clock1 (impulse_logs s))) = Rejected
         \<or> openai (reportContext toLowerCase (clock2 - 7 * 86400000) clock1
                   (selectWindow (clock2 - 7 * 86400000) clock1 (impulse_logs s))) = Resolved []"
  shows "generateReport toLowerCase openai clock1 clock2 s =
           (Response 500 (Error report_generation_failed),
            s\<lparr>openai_requests := openai_requests s @
                 [reportContext toLowerCase (clock2 - 7 * 86400000) clock1
                    (selectWindow (clock2 - 7 * 86400000) clock1 (impulse_logs s))]\<rparr>)
         \<and> reports (snd (generateReport toLowerCase openai clock1 clock2 s)) = reports s
         \<and> reports_id_seq (snd (generateReport toLowerCase openai clock1 clock2 s)) = reports_id_seq s"
  using assms by (auto simp: generateReport_def Let_def)

theorem generateReport_completion_failure_witness:
  "fst (generateReport toLowerCase_ascii (\<lambda>r. Rejected) 86400000 86400000
          (emptyState\<lparr>impulse_logs := [entry 1 8 0 ''bored'' ''no'']\<rparr>))
     = Response 500 (Error report_generation_failed)
   \<and> reports (snd (generateReport toLowerCase_ascii (\<lambda>r. Rejected) 86400000 86400000
          (emptyState\<lparr>impulse_logs := [entry 1 8 0 ''bored'' ''no'']\<rparr>))) = []"
  using generateReport_completion_failure [of 86400000 86400000
      "emptyState\<lparr>impulse_logs := [entry 1 8 0 ''bored'' ''no'']\<rparr>" "\<lambda>r. Rejected" toLowerCase_ascii]
  by (simp add: entry_def pg_timestamp_def selectWindow_def emptyState_def)

text \<open>
  Claim C7 says that the window is half-open, so that an entry whose time equals its end
  is left out. As stated it fails: \<open>BETWEEN\<close> includes both bounds, and an entry dated
  exactly at \<open>weekEnd\<close> is selected.
\<close>

theorem selectWindow_end_counterexample:
  "selectWindow 0 604800000
     [\<lparr>log_id = 1, datetime = pg_timestamp 604800000, feeling = utf16 ''bored'', acted = utf16 ''no''\<rparr>]
     = [\<lparr>log_id = 1, datetime = pg_timestamp 604800000, feeling = utf16 ''bored'', acted = utf16 ''no''\<rparr>]"
  by (simp add: selectWindow_def pg_timestamp_def)

text \<open>
  Claim C7, amended. The rows that the report is computed from are the entries of the
  closed window: exactly those whose time is not before \<open>weekStart\<close> and not after
  \<open>weekEnd\<close>, each as often as the table holds it, in ascending order of time; and
  \<open>totalImpulses\<close> is their number.
\<close>

theorem selectWindow_closed:
  "mset (selectWindow weekStart weekEnd logs) =
     filter_mset (\<lambda>l. pg_timestamp weekStart \<le> datetime l \<and> datetime l \<le> pg_timestamp weekEnd) (mset logs)
   \<and> set (selectWindow weekStart weekEnd logs) =
     {l \<in> set logs. pg_timestamp weekStart \<le> datetime l \<and> datetime l \<le> pg_timestamp weekEnd}
   \<and> sorted (map datetime (selectWindow weekStart weekEnd logs))
   \<and> totalImpulses (selectWindow weekStart weekEnd logs) =
     size (filter_mset (\<lambda>l. pg_timestamp weekStart \<le> datetime l \<and> datetime l \<le> pg_timestamp weekEnd)
            (mset logs))"
proof -
  let ?P = "\<lambda>l. pg_timestamp weekStart \<le> datetime l \<and> datetime l \<le> pg_timestamp weekEnd"
  have "length (filter ?P logs) = size (mset (filter ?P logs))"
    by (simp only: size_mset)
  then have "length (filter ?P logs) = size (filter_mset ?P (mset logs))"
    by (simp only: mset_filter)
  then show ?thesis by (simp add: selectWindow_def totalImpulses_def)
qed

section \<open>Properties of the statistics\<close>

lemma getHours_less: "getHours d < 24"
  by (simp add: getHours_def nat_less_iff)

lemma hourly_fold_length:
  "length (foldl (\<lambda>stats l. let hour = getHours (js_date (datetime l)) in stats[hour := stats ! hour + 1]) stats logs)
     = length stats"
  by (induction logs arbitrary: stats) (simp_all add: Let_def)

lemma hourly_fold_nth:
  "h < length stats \<Longrightarrow>
   foldl (\<lambda>stats l. let hour = getHours (js_date (datetime l)) in stats[hour := stats ! hour + 1]) stats logs ! h
     = stats ! h + hourCount logs h"
proof (induction logs arbitrary: stats)
  case Nil
  then show ?case by (simp add: hourCount_def)
next
  case (Cons l logs)
  then show ?case
    by (simp add: hourCount_def Let_def nth_list_update)
qed

lemma hourlyStats_length: "length (hourlyStats logs) = 24"
  unfolding hourlyStats_def by (simp only: hourly_fold_length length_replicate)

lemma hourlyStats_nth: "h < 24 \<Longrightarrow> hourlyStats logs ! h = hourCount logs h"
  unfolding hourlyStats_def by (simp only: hourly_fold_nth length_replicate nth_replicate add_0)

lemma indexOf_first:
  "v \<in> set xs \<Longrightarrow>
     \<exists>i < length xs. indexOf xs v = int i \<and> xs ! i = v \<and> (\<forall>j < i. xs ! j \<noteq> v)"
proof (induction xs)
  case Nil
  then show ?case by simp
next
  case (Cons x xs)
  show ?case
  proof (cases "x = v")
    case True
    then show ?thesis by simp
  next
    case False
    with Cons.prems have "v \<in> set xs" by simp
    from Cons.IH [OF this] obtain i where i: "i < length xs" "indexOf xs v = int i" "xs ! i = v"
      "\<forall>j < i. xs ! j \<noteq> v" by blast
    have "\<forall>j < Suc i. (x # xs) ! j \<noteq> v"
      using False i(4) by (auto simp: nth_Cons split: nat.splits)
    with False i show ?thesis
      by (intro exI [of _ "Suc i"]) (simp add: Let_def)
  qed
qed

lemma Math_max_greatest:
  "xs \<noteq> [] \<Longrightarrow> Math_max xs \<in> set xs \<and> (\<forall>x \<in> set xs. x \<le> Math_max xs)"
proof -
  assume ne: "xs \<noteq> []"
  have eq: "Math_max xs = Max (set (0 # xs))"
    unfolding Math_max_def by (rule Max.set_eq_fold [symmetric])
  have ub: "\<forall>x \<in> set xs. x \<le> Math_max xs"
    unfolding eq by simp
  have "Max (set (0 # xs)) \<in> set (0 # xs)"
    by (rule Max_in) simp_all
  then have "Math_max xs = 0 \<or> Math_max xs \<in> set xs"
    unfolding eq by auto
  moreover have "Math_max xs \<in> set xs" if "Math_max xs = 0"
  proof -
    from ne obtain y where y: "y \<in> set xs" by (cases xs) auto
    with ub that have "y = 0" by auto
    with y that show ?thesis by simp
  qed
  ultimately show ?thesis using ub by blast
qed

text \<open>
  Claim C5. For every window of logs (so for every non-empty one), \<open>peakHour\<close> is an hour
  \<open>h\<close> of \<open>0..23\<close> such that no hour has more entries than \<open>h\<close> and every hour below
  \<open>h\<close> has fewer: the lowest hour among those with the greatest count.
\<close>

theorem peakHour_lowest_maximum:
  "\<exists>h < 24. peakHour logs = int h
     \<and> (\<forall>k < 24. hourCount logs k \<le> hourCount logs h)
     \<and> (\<forall>k < h. hourCount logs k < hourCount logs h)"
proof -
  let ?hs = "hourlyStats logs"
  have ne: "?hs \<noteq> []" using hourlyStats_length [of logs] by auto
  from Math_max_greatest [OF ne]
  have mem: "Math_max ?hs \<in> set ?hs" and ub: "\<forall>x \<in> set ?hs. x \<le> Math_max ?hs" by simp_all
  from indexOf_first [OF mem] obtain h where h: "h < length ?hs" "indexOf ?hs (Math_max ?hs) = int h"
    "?hs ! h = Math_max ?hs" "\<forall>j < h. ?hs ! j \<noteq> Math_max ?hs" by blast
  have h24: "h < 24" using h(1) by (simp add: hourlyStats_length)
  have max_h: "hourCount logs h = Math_max ?hs"
    using h(3) h24 by (simp add: hourlyStats_nth)
  have le: "hourCount logs k \<le> hourCount logs h" if "k < 24" for k
  proof -
    have "?hs ! k \<in> set ?hs" using that by (simp add: hourlyStats_length)
    with ub have "?hs ! k \<le> Math_max ?hs" by blast
    then show ?thesis using that max_h by (simp add: hourlyStats_nth)
  qed
  have lt: "hourCount logs k < hourCount logs h" if "k < h" for k
  proof -
    have k24: "k < 24" using that h24 by simp
    have "?hs ! k \<noteq> Math_max ?hs" using h(4) that by blast
    then have "hourCount logs k \<noteq> hourCount logs h"
      using k24 max_h by (simp add: hourlyStats_nth)
    with le [OF k24] show ?thesis by simp
  qed
  from h24 h(2) le lt show ?thesis
    unfolding peakHour_def by blast
qed

theorem peakHour_lowest_maximum_witness:
  "peakHour scenario = 8 \<and> hourCount scenario 8 = 2 \<and> hourCount scenario 14 = 1"
proof -
  have "peakHour scenario = 8" by code_simp
  moreover have "hourCount scenario 8 = 2" by code_simp
  moreover have "hourCount scenario 14 = 1" by code_simp
  ultimately show ?thesis using peakHour_lowest_maximum [of scenario] by blast
qed

section \<open>Properties of the chat context\<close>

lemma take_drop_sorted:
  assumes "sorted (map f xs)" "y \<in> set (take n xs)" "x \<in> set (drop n xs)"
  shows "f y \<le> f x"
proof -
  have "sorted (map f (take n xs) @ map f (drop n xs))"
    using assms(1) by (simp flip: map_append)
  then show ?thesis using assms(2,3) by (auto simp: sorted_append)
qed

lemmas context_eval =
  chatContextRows_def lastSevenDays_def busyWeekAhead_def busyWeek_def entry_def sevenDays_def
  utf16_def

text \<open>
  Claim C8 says that the chat context holds the 10 most recent entries of the last seven
  days. The query has a lower bound only. In the table \<open>busyWeekAhead\<close>, at noon of day
  0, eleven entries lie in the last seven days and entry 13 is dated a day later: the
  context starts with entry 13, which is not of the last seven days, and leaves out entry
  2, which is one of the ten most recent that are.
\<close>

theorem chatContextRows_future_entry:
  "chatContextRows 43200000000 busyWeekAhead
     = entry 13 36 0 ''tomorrow'' ''no'' #
       map (\<lambda>i. entry i i 0 ''urge'' ''no'') [11, 10, 9, 8, 7, 6, 5, 4, 3]
   \<and> lastSevenDays 43200000000 busyWeekAhead
     = map (\<lambda>i. entry i i 0 ''urge'' ''no'') [1, 2, 3, 4, 5, 6, 7, 8, 9, 10, 11]
   \<and> take 10 (sort_key (\<lambda>l. - datetime l) (lastSevenDays 43200000000 busyWeekAhead))
     = map (\<lambda>i. entry i i 0 ''urge'' ''no'') [11, 10, 9, 8, 7, 6, 5, 4, 3, 2]"
proof -
  have w: "lastSevenDays 43200000000 busyWeekAhead
      = map (\<lambda>i. entry i i 0 ''urge'' ''no'') [1, 2, 3, 4, 5, 6, 7, 8, 9, 10, 11]"
    by (simp add: context_eval)
  have "chatContextRows 43200000000 busyWeekAhead
      = entry 13 36 0 ''tomorrow'' ''no'' #
        map (\<lambda>i. entry i i 0 ''urge'' ''no'') [11, 10, 9, 8, 7, 6, 5, 4, 3]"
    by (simp add: context_eval)
  moreover have "take 10 (sort_key (\<lambda>l. - datetime l)
        (map (\<lambda>i. entry i i 0 ''urge'' ''no'') [1, 2, 3, 4, 5, 6, 7, 8, 9, 10, 11]))
      = map (\<lambda>i. entry i i 0 ''urge'' ''no'') [11, 10, 9, 8, 7, 6, 5, 4, 3, 2]"
    by (simp add: entry_def utf16_def)
  ultimately show ?thesis unfolding w by simp
qed

text \<open>
  When no entry of the table is dated after \<open>now\<close>, the query does what the claim says:
  the context holds \<open>min 10 n\<close> rows, where \<open>n\<close> is the number of entries of the last
  seven days; they are such entries, each at most as often as the table holds it, and all
  of them when \<open>n\<close> is at most 10; they come newest first; and every such entry that is
  left out is no newer than any row of the context.
\<close>

lemma chatContextRows_without_future_entries:
  assumes past: "\<forall>l \<in> set logs. datetime l \<le> now"
  shows "length (chatContextRows now logs) = min 10 (length (lastSevenDays now logs))
   \<and> mset (chatContextRows now logs) \<subseteq># mset (lastSevenDays now logs)
   \<and> (length (lastSevenDays now logs) \<le> 10 \<longrightarrow>
        mset (chatContextRows now logs) = mset (lastSevenDays now logs))
   \<and> sorted_wrt (\<lambda>a b. datetime b \<le> datetime a) (chatContextRows now logs)
   \<and> (\<forall>x \<in># mset (lastSevenDays now logs) - mset (chatContextRows now logs).
        \<forall>y \<in> set (chatContextRows now logs). datetime x \<le> datetime y)"
proof -
  let ?W = "lastSevenDays now logs"
  let ?S = "sort_key (\<lambda>l. - datetime l) ?W"
  have "filter (\<lambda>l. now - sevenDays \<le> datetime l) logs = ?W"
    unfolding lastSevenDays_def using past by (intro filter_cong) auto
  then have ctx: "chatContextRows now logs = take 10 ?S"
    by (simp add: chatContextRows_def)
  have split: "mset ?W = mset (take 10 ?S) + mset (drop 10 ?S)"
    by (metis append_take_drop_id mset_append mset_sort)
  have srt: "sorted (map (\<lambda>l. - datetime l) ?S)" by simp
  have c1: "length (take 10 ?S) = min 10 (length ?W)" by simp
  have c2: "mset (take 10 ?S) \<subseteq># mset ?W" unfolding split by simp
  have c3: "mset (take 10 ?S) = mset ?W" if "length ?W \<le> 10"
    using that by simp
  have "sorted (map (\<lambda>l. - datetime l) (take 10 ?S))"
    using srt by (simp add: take_map [symmetric] sorted_wrt_take del: sorted_sort_key)
  then have c4: "sorted_wrt (\<lambda>a b. datetime b \<le> datetime a) (take 10 ?S)"
    by (simp add: sorted_map sorted_wrt_iff_nth_less)
  have c5: "datetime x \<le> datetime y"
    if "x \<in># mset ?W - mset (take 10 ?S)" "y \<in> set (take 10 ?S)" for x y
  proof -
    from that(1) have "x \<in> set (drop 10 ?S)" unfolding split by simp
    from take_drop_sorted [OF srt that(2) this] show ?thesis by simp
  qed
  from c1 c2 c3 c4 c5 show ?thesis unfolding ctx by blast
qed

section \<open>Properties of the emotion words\<close>

lemma map_fst_update:
  "map fst (map (\<lambda>(k, v). if k = w then (k, u) else (k, v)) obj) = map fst obj"
  by (induction obj) auto

lemma countWord_keys:
  "map fst (countWord obj w) =
     (if w \<in> fst ` set obj \<or> w = utf16 ''__proto__'' then map fst obj else map fst obj @ [w])"
proof (cases "map_of obj w")
  case None
  then have "w \<notin> fst ` set obj" by (simp add: map_of_eq_None_iff)
  with None show ?thesis by (simp add: countWord_def)
next
  case (Some v)
  then have "(w, v) \<in> set obj" by (rule map_of_SomeD)
  then have "w \<in> fst ` set obj" by force
  with Some show ?thesis
    by (cases v) (simp_all add: countWord_def map_fst_update del: map_map map_eq_conv)
qed

lemma emotionWords_keys:
  "distinct (map fst (foldl countWord [] ws))
   \<and> fst ` set (foldl countWord [] ws) = set ws - {utf16 ''__proto__''}"
proof (induction ws rule: rev_induct)
  case Nil
  then show ?case by simp
next
  case (snoc w ws)
  let ?obj = "foldl countWord [] ws"
  let ?p = "utf16 ''__proto__''"
  from snoc have d: "distinct (map fst ?obj)" and k: "fst ` set ?obj = set ws - {?p}"
    by blast+
  have step: "foldl countWord [] (ws @ [w]) = countWord ?obj w" by simp
  show ?case
  proof (cases "w \<in> fst ` set ?obj \<or> w = ?p")
    case True
    then have "map fst (countWord ?obj w) = map fst ?obj"
      by (simp only: countWord_keys if_True)
    moreover have "set (ws @ [w]) - {?p} = set ws - {?p}"
      using True k by auto
    ultimately show ?thesis
      unfolding step using d k by (metis list.set_map)
  next
    case False
    then have "map fst (countWord ?obj w) = map fst ?obj @ [w]"
      by (simp only: countWord_keys if_False)
    moreover have "set (ws @ [w]) - {?p} = insert w (set ws - {?p})"
      using False by auto
    moreover have "w \<notin> set (map fst ?obj)" using False by simp
    ultimately show ?thesis
      unfolding step using d k by (metis distinct1_rotate distinct.simps(2) list.set_map rotate1.simps(2) set_append list.simps(15) empty_set Un_insert_right sup_bot.right_neutral)
  qed
qed

lemma mset_Object_entries: "mset (Object_entries obj) = mset obj"
proof -
  have "(\<lambda>e. \<not> (case e of (k, v) \<Rightarrow> arrayIndex k \<noteq> None)) = (\<lambda>(k, v). arrayIndex k = None)"
    by auto
  then have "mset obj = filter_mset (\<lambda>(k, v). arrayIndex k \<noteq> None) (mset obj)
      + filter_mset (\<lambda>(k, v). arrayIndex k = None) (mset obj)"
    using multiset_partition [of "mset obj" "\<lambda>(k, v). arrayIndex k \<noteq> None"] by simp
  then show ?thesis by (simp add: Object_entries_def)
qed

lemma mset_insertSorted: "mset (insertSorted cmp x ys) = add_mset x (mset ys)"
  by (induction ys) (auto split: option.splits)

lemma mset_Array_sort: "mset (Array_sort cmp xs) = mset xs"
  by (induction xs) (simp_all add: Array_sort_def mset_insertSorted)

lemma set_insertSorted: "set (insertSorted cmp x ys) = insert x (set ys)"
  using mset_insertSorted [of cmp x ys] by (metis set_mset_add_mset_insert set_mset_mset)

lemma insertSorted_sorted:
  assumes "\<forall>e \<in> set (x # ys). \<exists>n. snd e = Number n"
    and "sorted_wrt (\<lambda>a b. numberOf (snd b) \<le> numberOf (snd a)) ys"
  shows "sorted_wrt (\<lambda>a b. numberOf (snd b) \<le> numberOf (snd a)) (insertSorted byCountDescending x ys)"
  using assms
proof (induction ys)
  case Nil
  then show ?case by simp
next
  case (Cons y ys)
  from Cons.prems(1) obtain nx ny where n: "snd x = Number nx" "snd y = Number ny" by auto
  then have cmp: "byCountDescending x y = Some (int ny - int nx)"
    by (simp add: byCountDescending_def)
  have num: "numberOf (snd x) = nx" "numberOf (snd y) = ny"
    using n by (simp_all add: numberOf_def)
  from Cons.prems(2) have tail: "sorted_wrt (\<lambda>a b. numberOf (snd b) \<le> numberOf (snd a)) ys"
    and head: "\<forall>z \<in> set ys. numberOf (snd z) \<le> ny"
    using num by simp_all
  show ?case
  proof (cases "nx < ny")
    case True
    then have ins: "insertSorted byCountDescending x (y # ys) = y # insertSorted byCountDescending x ys"
      using cmp by simp
    have "sorted_wrt (\<lambda>a b. numberOf (snd b) \<le> numberOf (snd a)) (insertSorted byCountDescending x ys)"
      using Cons.IH Cons.prems(1) tail by simp
    moreover have "\<forall>z \<in> set (insertSorted byCountDescending x ys). numberOf (snd z) \<le> numberOf (snd y)"
      using head num True by (simp add: set_insertSorted)
    ultimately show ?thesis unfolding ins by simp
  next
    case False
    then have ins: "insertSorted byCountDescending x (y # ys) = x # y # ys"
      using cmp by simp
    have "\<forall>z \<in> set (y # ys). numberOf (snd z) \<le> numberOf (snd x)"
      using head num False by auto
    then show ?thesis unfolding ins using Cons.prems(2) by simp
  qed
qed

lemma Array_sort_sorted:
  "\<forall>e \<in> set xs. \<exists>n. snd e = Number n \<Longrightarrow>
     sorted_wrt (\<lambda>a b. numberOf (snd b) \<le> numberOf (snd a)) (Array_sort byCountDescending xs)"
proof (induction xs)
  case Nil
  then show ?case by (simp add: Array_sort_def)
next
  case (Cons x xs)
  have "set (Array_sort byCountDescending xs) = set xs"
    using mset_Array_sort [of byCountDescending xs] by (metis set_mset_mset)
  with Cons show ?case
    using insertSorted_sorted [of x "Array_sort byCountDescending xs"]
    by (simp add: Array_sort_def)
qed

lemma emotionWords_counts:
  assumes "\<forall>w \<in> set ws. \<not> inheritedFunction w"
  shows "set (foldl countWord [] ws) =
           (\<lambda>k. (k, Number (count_list ws k))) ` (set ws - {utf16 ''__proto__''})"
  using assms
proof (induction ws rule: rev_induct)
  case Nil
  then show ?case by simp
next
  case (snoc w ws)
  let ?obj = "foldl countWord [] ws"
  let ?p = "utf16 ''__proto__''"
  have IH: "set ?obj = (\<lambda>k. (k, Number (count_list ws k))) ` (set ws - {?p})"
    using snoc by simp
  have keys: "fst ` set ?obj = set ws - {?p}" and dist: "distinct (map fst ?obj)"
    using emotionWords_keys [of ws] by blast+
  have notinh: "\<not> inheritedFunction w" using snoc.prems by simp
  show ?case
  proof (cases "w \<in> set ws - {?p}")
    case True
    then have "(w, Number (count_list ws w)) \<in> set ?obj" unfolding IH by blast
    with dist have m: "map_of ?obj w = Some (Number (count_list ws w))" by simp
    have "set (countWord ?obj w) =
        (\<lambda>(k, v). if k = w then (k, Number (count_list ws w + 1)) else (k, v)) ` set ?obj"
      using m by (simp add: countWord_def)
    also have "\<dots> = (\<lambda>k. (k, Number (count_list (ws @ [w]) k))) ` (set ws - {?p})"
      unfolding IH image_image by (intro image_cong) simp_all
    finally show ?thesis using True by (simp add: insert_absorb)
  next
    case False
    then have m: "map_of ?obj w = None" using keys by (simp add: map_of_eq_None_iff)
    show ?thesis
    proof (cases "w = ?p")
      case True
      then have "countWord ?obj w = ?obj" using m by (simp add: countWord_def)
      moreover have "(\<lambda>k. (k, Number (count_list (ws @ [w]) k))) ` (set ws - {?p})
          = (\<lambda>k. (k, Number (count_list ws k))) ` (set ws - {?p})"
        using True by (intro image_cong) auto
      ultimately show ?thesis using True IH by simp
    next
      case nproto: False
      with False have nin: "w \<notin> set ws" by simp
      have "countWord ?obj w = ?obj @ [(w, Number 1)]"
        using m nproto notinh by (simp add: countWord_def)
      moreover have "(\<lambda>k. (k, Number (count_list (ws @ [w]) k))) ` (set ws - {?p})
          = (\<lambda>k. (k, Number (count_list ws k))) ` (set ws - {?p})"
        using nin by (intro image_cong) auto
      moreover have "set (ws @ [w]) - {?p} = insert w (set ws - {?p})"
        using nproto by auto
      ultimately show ?thesis using IH nin by simp
    qed
  qed
qed


lemma sortedEntries_mset:
  "mset (Array_sort byCountDescending (Object_entries obj)) = mset obj"
  by (simp add: mset_Array_sort mset_Object_entries)

lemmas emotion_eval =
  topEmotions_def emotionWords_def emotionTokens_def toLowerCase_ascii_def scenario_def entry_def
  utf16_def split_whitespace_def isWhiteSpace_def countWord_def inheritedFunction_def
  prototypeProperty_def Object_entries_def arrayIndex_def isDigit_def Array_sort_def
  byCountDescending_def

text \<open>
  Claim C6 says that empty fragments are ignored, so that no element of \<open>topEmotions\<close> is
  the empty string and there are at most as many elements as distinct non-empty tokens, and
  that the words are ranked by their frequency. As stated it fails. For one entry whose
  feeling starts with a blank, the empty piece before the blank is counted and listed, and
  two words are listed for one non-empty token. For two entries in which \<open>calm\<close> occurs
  twice and \<open>constructor\<close> three times, \<open>calm\<close> is listed first. For one entry
  whose feeling is \<open>__proto__\<close>, nothing is listed.
\<close>

theorem topEmotions_empty_word_counterexample:
  "topEmotions toLowerCase_ascii [entry 1 8 0 '' calm'' ''no''] = [[], utf16 ''calm'']
   \<and> topEmotions toLowerCase_ascii
        [entry 1 8 0 ''calm calm'' ''no'', entry 2 9 0 ''constructor constructor constructor'' ''no'']
       = [utf16 ''calm'', utf16 ''constructor'']
   \<and> topEmotions toLowerCase_ascii [entry 1 8 0 ''__proto__'' ''no''] = []"
  by (simp add: emotion_eval)

text \<open>
  Claim C6, amended. The words are the pieces of the lower-cased feeling texts, the empty
  pieces included. For every window, \<open>topEmotions\<close> has at most 3 elements and at most as
  many as there are distinct pieces, and its elements are distinct pieces of the window.
  For every window in which no piece is a property name of \<open>Object.prototype\<close>, it has
  exactly 3 elements, or as many as there are distinct pieces when these are fewer; it is
  in descending order of the number of occurrences of its elements in the window; and no
  piece that is left out occurs more often than one that is listed.
\<close>

theorem topEmotions_ranked:
  "length (topEmotions toLowerCase logs) \<le> 3
   \<and> length (topEmotions toLowerCase logs) \<le> card (set (emotionTokens toLowerCase logs))
   \<and> distinct (topEmotions toLowerCase logs)
   \<and> set (topEmotions toLowerCase logs) \<subseteq> set (emotionTokens toLowerCase logs)
   \<and> ((\<forall>w \<in> set (emotionTokens toLowerCase logs). \<not> prototypeProperty w) \<longrightarrow>
        length (topEmotions toLowerCase logs) = min 3 (card (set (emotionTokens toLowerCase logs)))
        \<and> sorted_wrt (\<lambda>a b. count_list (emotionTokens toLowerCase logs) b
                            \<le> count_list (emotionTokens toLowerCase logs) a)
            (topEmotions toLowerCase logs)
        \<and> (\<forall>v \<in> set (emotionTokens toLowerCase logs) - set (topEmotions toLowerCase logs).
              \<forall>w \<in> set (topEmotions toLowerCase logs).
                count_list (emotionTokens toLowerCase logs) v
                  \<le> count_list (emotionTokens toLowerCase logs) w))"
proof -
  let ?ws = "emotionTokens toLowerCase logs"
  let ?p = "utf16 ''__proto__''"
  let ?obj = "foldl countWord [] ?ws"
  let ?S = "Array_sort byCountDescending (Object_entries ?obj)"
  let ?top = "topEmotions toLowerCase logs"
  have top: "?top = take 3 (map fst ?S)"
    by (simp add: topEmotions_def emotionWords_def take_map)
  have msetS: "mset ?S = mset ?obj" by (rule sortedEntries_mset)
  then have msetK: "mset (map fst ?S) = mset (map fst ?obj)" by simp
  have setS: "set ?S = set ?obj" using msetS by (metis set_mset_mset)
  have distK: "distinct (map fst ?S)"
    using msetK emotionWords_keys [of ?ws] by (metis mset_eq_imp_distinct_iff)
  have setK: "set (map fst ?S) = set ?ws - {?p}"
    using setS emotionWords_keys [of ?ws] by simp
  have lenK: "length (map fst ?S) = card (set ?ws - {?p})"
    using distK unfolding setK [symmetric] by (rule distinct_card [symmetric])
  have c1: "length ?top \<le> 3" unfolding top by simp
  have "card (set ?ws - {?p}) \<le> card (set ?ws)" by (intro card_mono) auto
  then have c2: "length ?top \<le> card (set ?ws)" unfolding top using lenK by simp
  have c3: "distinct ?top" unfolding top using distK by (rule distinct_take)
  have "set ?top \<subseteq> set (map fst ?S)" unfolding top by (rule set_take_subset)
  then have c4: "set ?top \<subseteq> set ?ws" unfolding setK by blast
  have c5: "length ?top = min 3 (card (set ?ws))
      \<and> sorted_wrt (\<lambda>a b. count_list ?ws b \<le> count_list ?ws a) ?top
      \<and> (\<forall>v \<in> set ?ws - set ?top. \<forall>w \<in> set ?top. count_list ?ws v \<le> count_list ?ws w)"
    if H: "\<forall>w \<in> set ?ws. \<not> prototypeProperty w"
  proof -
    from H have Hf: "\<forall>w \<in> set ?ws. \<not> inheritedFunction w" and np: "?p \<notin> set ?ws"
      by (auto simp: prototypeProperty_def)
    from np have all: "set ?ws - {?p} = set ?ws" by simp
    have s0: "length ?top = min 3 (card (set ?ws))"
      unfolding top using lenK all by simp
    have elems: "set ?S = (\<lambda>k. (k, Number (count_list ?ws k))) ` (set ?ws - {?p})"
      unfolding setS using Hf by (rule emotionWords_counts)
    then have numbers: "\<forall>e \<in> set (Object_entries ?obj). \<exists>n. snd e = Number n"
      using mset_Object_entries [of ?obj] setS by (metis (no_types, lifting) imageE set_mset_mset snd_conv)
    have val: "numberOf (snd e) = count_list ?ws (fst e)" if "e \<in> set ?S" for e
      using that unfolding elems by (auto simp: numberOf_def)
    have "sorted_wrt (\<lambda>a b. numberOf (snd b) \<le> numberOf (snd a)) ?S"
      using numbers by (rule Array_sort_sorted)
    then have "sorted_wrt (\<lambda>a b. count_list ?ws (fst b) \<le> count_list ?ws (fst a)) ?S"
      by (rule sorted_wrt_mono_rel [rotated]) (simp add: val)
    then have srtK: "sorted_wrt (\<lambda>a b. count_list ?ws b \<le> count_list ?ws a) (map fst ?S)"
      by (simp add: sorted_wrt_map)
    then have s1: "sorted_wrt (\<lambda>a b. count_list ?ws b \<le> count_list ?ws a) ?top"
      unfolding top by (rule sorted_wrt_take)
    have s2: "\<forall>w \<in> set ?top. count_list ?ws v \<le> count_list ?ws w"
      if v: "v \<in> set ?ws - set ?top" for v
    proof -
      have "v \<in> set (map fst ?S)" using v unfolding setK all by simp
      moreover have "set (map fst ?S) = set (take 3 (map fst ?S)) \<union> set (drop 3 (map fst ?S))"
        by (metis append_take_drop_id set_append)
      ultimately have vd: "v \<in> set (drop 3 (map fst ?S))" using v unfolding top by blast
      have "sorted_wrt (\<lambda>a b. count_list ?ws b \<le> count_list ?ws a)
              (take 3 (map fst ?S) @ drop 3 (map fst ?S))"
        using srtK by simp
      then show ?thesis
        unfolding top sorted_wrt_append using vd by blast
    qed
    from s0 s1 s2 show ?thesis by blast
  qed
  from c1 c2 c3 c4 c5 show ?thesis by blast
qed

theorem topEmotions_ranked_witness:
  "topEmotions toLowerCase_ascii scenario = [utf16 ''anxious'', utf16 ''about'', utf16 ''deadline'']
   \<and> length (topEmotions toLowerCase_ascii scenario)
       = min 3 (card (set (emotionTokens toLowerCase_ascii scenario)))
   \<and> count_list (emotionTokens toLowerCase_ascii scenario) (utf16 ''anxious'') = 2
   \<and> count_list (emotionTokens toLowerCase_ascii scenario) (utf16 ''bored'') = 1"
proof -
  have H: "\<forall>w \<in> set (emotionTokens toLowerCase_ascii scenario). \<not> prototypeProperty w"
    by (simp add: emotion_eval)
  have "topEmotions toLowerCase_ascii scenario = [utf16 ''anxious'', utf16 ''about'', utf16 ''deadline'']"
    by (simp add: emotion_eval)
  moreover have "count_list (emotionTokens toLowerCase_ascii scenario) (utf16 ''anxious'') = 2"
    by (simp add: emotion_eval)
  moreover have "count_list (emotionTokens toLowerCase_ascii scenario) (utf16 ''bored'') = 1"
    by (simp add: emotion_eval)
  ultimately show ?thesis using topEmotions_ranked [of toLowerCase_ascii scenario] H by blast
qed

section \<open>Properties of the emotion analysis\<close>

lemmas json_eval =
  JSON_parse_def utf16_def jsonWhiteSpace_def numberEnd_def afterSign_def afterInt_def
  isDigit_def valueStep_def keyStep_def Object_entries_def

text \<open>
  Claim C3, amended. For a completion whose text is not empty and is refused by
  \<open>JSON.parse\<close>, the analysis is the fixed fallback of the source (its labels are the
  Chinese ones of \<open>fallbackAnalysis\<close>); a text that \<open>JSON.parse\<close> accepts is passed
  on as parsed, whatever its shape; a \<open>null\<close> or empty completion is read as \<open>{}\<close>
  and gives the empty object. In each case the handler answers 200 with the analysis: no
  failure of the parse reaches the caller.
\<close>

theorem analyzeEmotion_fallback:
  "(t \<noteq> [] \<and> JSON_parse t = None \<longrightarrow> analysisOf (Some t) = fallbackAnalysis)
   \<and> (t \<noteq> [] \<and> JSON_parse t = Some v \<longrightarrow> analysisOf (Some t) = v)
   \<and> analysisOf None = JObject []
   \<and> analysisOf (Some []) = JObject []
   \<and> (f \<noteq> [] \<and> trim f \<noteq> [] \<and> openai (EmotionRequest f) = Resolved (c # cs) \<longrightarrow>
        fst (analyzeEmotion openai (Some f) s) = Response 200 (Analysis (analysisOf c)))"
proof -
  have empty_object: "JSON_parse (utf16 ''{}'') = Some (JObject [])"
    by (simp add: json_eval)
  show ?thesis
    by (simp add: analysisOf_def analyzeEmotion_def empty_object Let_def)
qed

theorem analyzeEmotion_fallback_witness:
  "JSON_parse (utf16 ''I feel sad'') = None
   \<and> fst (analyzeEmotion (\<lambda>r. Resolved [Some (utf16 ''I feel sad'')]) (Some (utf16 ''so tired'')) emptyState)
       = Response 200 (Analysis fallbackAnalysis)"
proof -
  have p: "JSON_parse (utf16 ''I feel sad'') = None"
    by (simp add: json_eval)
  have t: "trim (utf16 ''so tired'') \<noteq> []"
    by (simp add: trim_def utf16_def isWhiteSpace_def)
  have n: "utf16 ''so tired'' \<noteq> []" "utf16 ''I feel sad'' \<noteq> []"
    by (simp_all add: utf16_def)
  from analyzeEmotion_fallback [of "utf16 ''I feel sad''" _ "utf16 ''so tired''"
      "\<lambda>r. Resolved [Some (utf16 ''I feel sad'')]" "Some (utf16 ''I feel sad'')" "[]" emptyState] p t n
  show ?thesis by simp
qed

text \<open>
  Claim C3 says that every output text that is not JSON gives the fallback
  \<open>{primaryEmotion: "unknown", intensity: 5, ...}\<close>. As stated it fails: the empty text is
  not JSON (\<open>JSON.parse\<close> refuses it), and the analysis for it is the empty object; the
  text \<open>42\<close> is JSON of another shape and is passed on as it is; and for the text
  \<open>calm\<close>, which is not JSON, the analysis is not the value that the claim spells out.
\<close>

theorem analysisOf_empty_counterexample:
  "JSON_parse [] = None
   \<and> analysisOf (Some []) = JObject []
   \<and> analysisOf (Some []) \<noteq> fallbackAnalysis
   \<and> analysisOf (Some (utf16 ''42'')) = JNumber (utf16 ''42'')
   \<and> JSON_parse (utf16 ''calm'') = None
   \<and> analysisOf (Some (utf16 ''calm'')) \<noteq> fallbackAnalysis_spec"
proof -
  have n: "analysisOf (Some (utf16 ''42'')) = JNumber (utf16 ''42'')"
    by (simp add: analysisOf_def json_eval afterFraction_def afterExponent_def)
  have a: "JSON_parse [] = None" by (simp add: JSON_parse_def)
  have b: "JSON_parse (utf16 ''{}'') = Some (JObject [])" by (simp add: json_eval)
  have c: "JSON_parse (utf16 ''calm'') = None" by (simp add: json_eval)
  have d: "utf16 ''calm'' \<noteq> []" by (simp add: utf16_def)
  have e: "fallbackAnalysis \<noteq> fallbackAnalysis_spec"
    by (simp add: fallbackAnalysis_def fallbackAnalysis_spec_def utf16_def)
  show ?thesis using a b c d e n
    by (simp add: analysisOf_def fallbackAnalysis_def)
qed

section \<open>Properties of the resistance rate\<close>

lemmas double_eval =
  Math_round_def double_times_def double_divide_def toDouble_def scaled_def roundTiesToEven_def
  compute_floorlog

text \<open>
  Claim C4 says that the rate is the exact quotient times 100, rounded half up. In the
  window \<open>halfResisted\<close>, 23 of 40 entries are resisted: the exact percentage is 57.5,
  which rounds half up to 58. The source divides first; the double nearest to 23/40 lies
  below it, the product with 100 rounds to a double below 57.5, and \<open>Math.round\<close> gives
  57.
\<close>

theorem resistanceRate_half_rounded_down:
  "totalImpulses halfResisted = 40
   \<and> resistedImpulses halfResisted = 23
   \<and> resistanceRate halfResisted = Finite 57 0
   \<and> roundHalfUpPercent (resistedImpulses halfResisted) (totalImpulses halfResisted) = 58"
proof -
  have t: "totalImpulses halfResisted = 40"
    by (simp add: totalImpulses_def halfResisted_def)
  have a: "actedImpulses halfResisted = 17"
    by (simp add: actedImpulses_def halfResisted_def entry_def utf16_def)
  have r: "resistedImpulses halfResisted = 23"
    by (simp add: resistedImpulses_def t a)
  have "resistanceRate halfResisted = Finite 57 0"
    by (simp add: resistanceRate_def t r double_eval)
  moreover have "roundHalfUpPercent 23 40 = 58"
    by (simp add: roundHalfUpPercent_def)
  ultimately show ?thesis using t r by simp
qed

text \<open>
  The other parts of claim C4 hold for the rate that the source computes. The ends of the
  scale are exact: 0 when every entry is acted on, 100 when none is. And for every
  non-empty window the rate is an integer from 0 to 100: rounding to the nearest double
  never passes 1 in the quotient nor 100 in the product.
\<close>

lemma resistanceRate_all_acted:
  assumes "logs \<noteq> []" "resistedImpulses logs = 0"
  shows "resistanceRate logs = Finite 0 0"
  using assms by (simp add: resistanceRate_def totalImpulses_def double_eval)

lemma toDouble_one: "0 < t \<Longrightarrow> toDouble t t = Finite (2 ^ 52) (- 52)"
  by (simp add: toDouble_def scaled_def roundTiesToEven_def)

lemma resistanceRate_none_acted:
  assumes "logs \<noteq> []" "actedImpulses logs = 0"
  shows "resistanceRate logs = Finite 100 0"
proof -
  have t: "0 < totalImpulses logs" using assms(1) by (simp add: totalImpulses_def)
  have "double_divide (resistedImpulses logs) (totalImpulses logs) = Finite (2 ^ 52) (- 52)"
    using t assms(2) by (simp add: resistedImpulses_def double_divide_def toDouble_one)
  then show ?thesis
    by (simp add: resistanceRate_def double_times_def Math_round_def toDouble_def scaled_def
        roundTiesToEven_def compute_floorlog)
qed

lemma roundTiesToEven_le:
  assumes "0 < d" "n \<le> N * d"
  shows "roundTiesToEven n d \<le> N"
proof (cases "n div d = N")
  case True
  have "(n div d) * d \<le> n" by simp
  with True assms(2) have "n = N * d" by simp
  with assms(1) show ?thesis by (simp add: roundTiesToEven_def)
next
  case False
  have "n div d \<le> N * d div d" using assms(2) by (rule div_le_mono)
  with assms(1) False have "n div d < N" by simp
  then show ?thesis by (simp add: roundTiesToEven_def Let_def)
qed

lemma toDouble_le:
  assumes "0 < n" "0 < d" "n \<le> B * d" "floorlog 2 n \<le> floorlog 2 d + 7"
  shows "\<exists>m e. toDouble n d = Finite m e \<and> e < 0 \<and> m \<le> B * 2 ^ nat (- e)"
proof -
  define k where "k = int (floorlog 2 n) - int (floorlog 2 d)"
  have k: "k \<le> 7" using assms(4) by (simp add: k_def)
  have bound: "roundTiesToEven (n * 2 ^ nat (- e)) d \<le> B * 2 ^ nat (- e)" for e :: int
    using assms(2,3) by (intro roundTiesToEven_le) simp_all
  have sc: "scaled n d e = (n * 2 ^ nat (- e), d)" if "e < 0" for e
    using that by (simp add: scaled_def)
  have e1: "k - 53 < 0" and e2: "k - 52 < 0" using k by simp_all
  show ?thesis
  proof (cases "n * 2 ^ nat (- (k - 53)) < 2 ^ 53 * d")
    case True
    then have "toDouble n d = Finite (roundTiesToEven (n * 2 ^ nat (- (k - 53))) d) (k - 53)"
      using assms(1) sc [OF e1] by (simp add: toDouble_def k_def [symmetric] Let_def)
    with e1 bound [of "k - 53"] show ?thesis by blast
  next
    case False
    then have "toDouble n d = Finite (roundTiesToEven (n * 2 ^ nat (- (k - 52))) d) (k - 52)"
      using assms(1) sc [OF e1] sc [OF e2] by (simp add: toDouble_def k_def [symmetric] Let_def)
    with e2 bound [of "k - 52"] show ?thesis by blast
  qed
qed

lemma Math_round_le:
  assumes "e < 0" "m \<le> 100 * 2 ^ nat (- e)"
  shows "\<exists>n \<le> 100. Math_round (Finite m e) = Finite n 0"
proof -
  let ?D = "(2::nat) ^ nat (- e)"
  have "0 < ?D" by simp
  then have "2 * m + ?D < 101 * (2 * ?D)" using assms(2) by linarith
  then have "(2 * m + ?D) div (2 * ?D) < 101" by (simp add: less_mult_imp_div_less)
  then show ?thesis using assms(1) by (simp add: Math_round_def scaled_def)
qed

lemma resistanceRate_range:
  assumes "logs \<noteq> []"
  shows "\<exists>n \<le> 100. resistanceRate logs = Finite n 0"
proof -
  let ?r = "resistedImpulses logs" and ?t = "totalImpulses logs"
  have t: "0 < ?t" using assms by (simp add: totalImpulses_def)
  have rt: "?r \<le> ?t" by (simp add: resistedImpulses_def)
  show ?thesis
  proof (cases "?r = 0")
    case True
    with assms show ?thesis by (simp add: resistanceRate_all_acted)
  next
    case False
    then have r: "0 < ?r" by simp
    have "floorlog 2 ?r \<le> floorlog 2 ?t + 7"
      using floorlog_mono [OF rt, of 2] by simp
    from toDouble_le [OF r t _ this, of 1] rt
    obtain m e where q: "toDouble ?r ?t = Finite m e" "e < 0" "m \<le> 2 ^ nat (- e)"
      by auto
    let ?D = "(2::nat) ^ nat (- e)"
    have prod: "double_times (double_divide ?r ?t) 100 = toDouble (m * 100) ?D"
      using t q(1,2) by (simp add: double_divide_def double_times_def scaled_def)
    show ?thesis
    proof (cases "m = 0")
      case True
      then show ?thesis
        unfolding resistanceRate_def prod by (simp add: toDouble_def Math_round_def scaled_def)
    next
      case False
      have "m * 100 \<le> ?D * 2 ^ 7" using q(3) by simp
      then have "floorlog 2 (m * 100) \<le> floorlog 2 (?D * 2 ^ 7)" by (rule floorlog_mono)
      moreover have "floorlog 2 (?D * 2 ^ 7) = floorlog 2 ?D + 7"
        by (rule floorlog_power) simp_all
      ultimately have fl: "floorlog 2 (m * 100) \<le> floorlog 2 ?D + 7" by (simp only:)
      have "m * 100 \<le> 100 * ?D" using q(3) by simp
      from toDouble_le [OF _ _ this fl] False
      obtain m2 e2 where y: "toDouble (m * 100) ?D = Finite m2 e2" "e2 < 0"
        "m2 \<le> 100 * 2 ^ nat (- e2)" by auto
      from Math_round_le [OF y(2,3)] show ?thesis
        unfolding resistanceRate_def prod y(1) .
    qed
  qed
qed

end
